theory Spec2Isabelle
  imports Complex_Main "HOL-Library.AList"
begin

section \<open>Data model: cells, rows and frames\<close>

text \<open>
  The calculator \<^verbatim>\<open>calculate_dual_zscore\<close> of \<^verbatim>\<open>app.py\<close> works on a pandas
  DataFrame. A frame is its ordered column index together with its rows; a row pairs
  every column name with the cell it holds, in column order. A cell is a string, a
  number or the missing value NaN. Double precision numbers are read as real numbers:
  a statement below about a mean, a standard deviation or a score of the calculator is a
  statement of exact arithmetic. The rounding of doubles is modelled apart, for the
  statistics and the score of one cell, in the section on double precision; the two
  readings differ by rounding where the standard deviation is not zero, and take
  different branches of line 97 where the reference values are all the same.

  Column names are byte strings in UTF-8, so each accented letter of the category
  column and of the reference column is two bytes.
\<close>

datatype cell = Str string | Num real | NaN

datatype error = KeyError | TypeError | ValueError

type_synonym row = "(string \<times> cell) list"

record frame =
  columns :: "string list"
  rows :: "row list"

definition COL_JUGADOR :: string where
  "COL_JUGADOR = ''JUGADOR''"

definition COL_CATEGORIA :: string where
  "COL_CATEGORIA = ''CATEGOR'' @ [CHR 0xC3, CHR 0x8D] @ ''A''"

text \<open>The name of the column that line 104 adds for the reference category.\<close>

definition COL_REFERENCIA :: string where
  "COL_REFERENCIA = ''Categor'' @ [CHR 0xC3, CHR 0xAD] @ ''a de Referencia''"

text \<open>Line 94: \<^verbatim>\<open>new_col_name = f'Z-Score {col}'\<close>.\<close>

definition new_col_name :: "string \<Rightarrow> string" where
  "new_col_name col = ''Z-Score '' @ col"

text \<open>\<^verbatim>\<open>pd.DataFrame()\<close>: no columns, no rows.\<close>

definition empty_frame :: frame where
  "empty_frame = \<lparr>columns = [], rows = []\<rparr>"

text \<open>\<^verbatim>\<open>DataFrame.empty\<close>: true when any axis has length 0.\<close>

definition df_empty :: "frame \<Rightarrow> bool" where
  "df_empty df = (rows df = [] \<or> columns df = [])"

definition cell_of :: "row \<Rightarrow> string \<Rightarrow> cell" where
  "cell_of r c = (case map_of r c of Some v \<Rightarrow> v | None \<Rightarrow> NaN)"

fun is_str :: "cell \<Rightarrow> bool" where
  "is_str (Str s) = True"
| "is_str _ = False"

fun is_number :: "cell \<Rightarrow> bool" where
  "is_number (Num x) = True"
| "is_number _ = False"

text \<open>The values of one column, top to bottom.\<close>

definition col_values :: "frame \<Rightarrow> string \<Rightarrow> cell list" where
  "col_values df c = map (\<lambda>r. cell_of r c) (rows df)"

section \<open>The pandas operations the calculator uses\<close>

text \<open>\<^verbatim>\<open>Series.isin(target_players)\<close>, the targets being strings.\<close>

fun isin :: "cell \<Rightarrow> string list \<Rightarrow> bool" where
  "isin (Str s) ps = (s \<in> set ps)"
| "isin _ ps = False"

text \<open>
  Line 71, \<^verbatim>\<open>df[df[COL_JUGADOR].isin(target_players)].copy()\<close>: a KeyError when the
  frame has no such column, otherwise the rows whose entity is a target, in their order.
\<close>

definition select_targets :: "frame \<Rightarrow> string list \<Rightarrow> error + frame" where
  "select_targets df target_players =
     (if COL_JUGADOR \<in> set (columns df)
      then Inr (df\<lparr>rows := filter (\<lambda>r. isin (cell_of r COL_JUGADOR) target_players) (rows df)\<rparr>)
      else Inl KeyError)"

text \<open>Line 78, \<^verbatim>\<open>df[df[COL_CATEGORIA] == ref_cat]\<close>.\<close>

definition select_reference :: "frame \<Rightarrow> string \<Rightarrow> error + frame" where
  "select_reference df ref_cat =
     (if COL_CATEGORIA \<in> set (columns df)
      then Inr (df\<lparr>rows := filter (\<lambda>r. cell_of r COL_CATEGORIA = Str ref_cat) (rows df)\<rparr>)
      else Inl KeyError)"

text \<open>Missing values are skipped by \<^verbatim>\<open>mean\<close> and \<^verbatim>\<open>std\<close> (skipna).\<close>

fun numbers :: "cell list \<Rightarrow> real list" where
  "numbers [] = []"
| "numbers (Num x # cs) = x # numbers cs"
| "numbers (c # cs) = numbers cs"

text \<open>The arithmetic mean; NaN (\<open>None\<close>) of no value at all.\<close>

definition series_mean :: "real list \<Rightarrow> real option" where
  "series_mean xs = (if xs = [] then None else Some (sum_list xs / real (length xs)))"

text \<open>
  The sample standard deviation (pandas' default \<^verbatim>\<open>ddof=1\<close>): the square root of
  the squared deviations from the mean summed and divided by \<open>N - 1\<close>; NaN (\<open>None\<close>)
  of fewer than two values.
\<close>

definition series_std :: "real list \<Rightarrow> real option" where
  "series_std xs =
     (if length xs < 2 then None
      else Some (sqrt (sum_list (map (\<lambda>x. (x - sum_list xs / real (length xs))\<^sup>2) xs)
                       / real (length xs - 1))))"

type_synonym stats = "(string \<times> real option \<times> real option) list"

text \<open>
  Lines 84 and 85, \<^verbatim>\<open>df_reference[value_cols].agg(['mean', 'std']).T\<close>: one entry
  (column, mean, std) per requested column, in the order requested. Selecting a column the
  frame does not have is a KeyError, aggregating no column at all is a ValueError (pandas
  has nothing to concatenate), and a column holding a string is a TypeError.
\<close>

definition agg_stats :: "frame \<Rightarrow> string list \<Rightarrow> error + stats" where
  "agg_stats df_reference value_cols =
     (if \<not> set value_cols \<subseteq> set (columns df_reference) then Inl KeyError
      else if value_cols = [] then Inl ValueError
      else if \<exists>c \<in> set value_cols. \<exists>v \<in> set (col_values df_reference c). is_str v
      then Inl TypeError
      else Inr (map (\<lambda>c. (c, series_mean (numbers (col_values df_reference c)),
                          series_std (numbers (col_values df_reference c)))) value_cols))"

text \<open>
  \<^verbatim>\<open>df[c] = ...\<close>: an existing column is overwritten in place, a new one is appended
  as the last column. The new cell of each row is given as a function of the row.
\<close>

definition assign :: "frame \<Rightarrow> string \<Rightarrow> (row \<Rightarrow> cell) \<Rightarrow> frame" where
  "assign df c f =
     \<lparr>columns = (if c \<in> set (columns df) then columns df else columns df @ [c]),
      rows = map (\<lambda>r. AList.update c (f r) r) (rows df)\<rparr>"

text \<open>Line 101 on one cell: \<^verbatim>\<open>(value - mean) / std\<close>, NaN propagating.\<close>

fun zscore_cell :: "real option \<Rightarrow> real \<Rightarrow> cell \<Rightarrow> cell" where
  "zscore_cell (Some m) s (Num x) = Num ((x - m) / s)"
| "zscore_cell _ _ _ = NaN"

text \<open>
  Lines 90 to 101, the loop over \<^verbatim>\<open>value_cols\<close>. \<^verbatim>\<open>stats.loc[col, 'std']\<close> is a
  scalar only when \<^verbatim>\<open>col\<close> was requested once; requested twice it is a Series, and
  the test of line 97 raises a ValueError. Subtracting a number from a string cell is a
  TypeError. The column read on line 101 is read from the frame as the loop has updated it
  so far.
\<close>

fun score_cols :: "stats \<Rightarrow> string list \<Rightarrow> frame \<Rightarrow> error + frame" where
  "score_cols st [] df_cat_zscore = Inr df_cat_zscore"
| "score_cols st (col # cols) df_cat_zscore =
     (case filter (\<lambda>e. fst e = col) st of
        [] \<Rightarrow> Inl KeyError
      | [(_, mean, std)] \<Rightarrow>
          if std = Some 0 \<or> std = None
          then score_cols st cols (assign df_cat_zscore (new_col_name col) (\<lambda>r. Num 0))
          else if col \<notin> set (columns df_cat_zscore) then Inl KeyError
          else if \<exists>v \<in> set (col_values df_cat_zscore col). is_str v then Inl TypeError
          else score_cols st cols
                 (assign df_cat_zscore (new_col_name col)
                    (\<lambda>r. zscore_cell mean (the std) (cell_of r col)))
      | _ \<Rightarrow> Inl ValueError)"

text \<open>
  Lines 76 to 105, the loop over \<^verbatim>\<open>reference_categories\<close> with the list
  \<^verbatim>\<open>all_comparisons\<close> it appends to. A reference category without rows is skipped.
\<close>

fun ref_loop :: "frame \<Rightarrow> frame \<Rightarrow> string list \<Rightarrow> string list \<Rightarrow> frame list
                 \<Rightarrow> error + frame list" where
  "ref_loop df df_targets value_cols [] all_comparisons = Inr all_comparisons"
| "ref_loop df df_targets value_cols (ref_cat # rest) all_comparisons =
     (case select_reference df ref_cat of
        Inl e \<Rightarrow> Inl e
      | Inr df_reference \<Rightarrow>
          if df_empty df_reference then ref_loop df df_targets value_cols rest all_comparisons
          else (case agg_stats df_reference value_cols of
                  Inl e \<Rightarrow> Inl e
                | Inr st \<Rightarrow>
                    (case score_cols st value_cols df_targets of
                       Inl e \<Rightarrow> Inl e
                     | Inr df_cat_zscore \<Rightarrow>
                         ref_loop df df_targets value_cols rest
                           (all_comparisons
                              @ [assign df_cat_zscore COL_REFERENCIA (\<lambda>r. Str ref_cat)]))))"

text \<open>
  Line 111, \<^verbatim>\<open>pd.concat(all_comparisons, ignore_index=True)\<close>: the columns are the
  union of the frames' columns in order of first appearance, every row is laid out on them
  (a cell it does not have is NaN), and the rows follow each other frame after frame.
\<close>

fun union_cols :: "string list \<Rightarrow> string list \<Rightarrow> string list" where
  "union_cols acc [] = acc"
| "union_cols acc (c # cs) = union_cols (if c \<in> set acc then acc else acc @ [c]) cs"

definition reindex :: "string list \<Rightarrow> row \<Rightarrow> row" where
  "reindex cols r = map (\<lambda>c. (c, cell_of r c)) cols"

definition pd_concat :: "frame list \<Rightarrow> frame" where
  "pd_concat fs =
     (let cols = foldl union_cols [] (map columns fs)
      in \<lparr>columns = cols, rows = concat (map (\<lambda>f. map (reindex cols) (rows f)) fs)\<rparr>)"

text \<open>\<^verbatim>\<open>df.drop(columns=cs, errors='ignore')\<close>.\<close>

definition drop_columns :: "frame \<Rightarrow> string list \<Rightarrow> frame" where
  "drop_columns df cs =
     \<lparr>columns = filter (\<lambda>c. c \<notin> set cs) (columns df),
      rows = map (filter (\<lambda>p. fst p \<notin> set cs)) (rows df)\<rparr>"

section \<open>The calculator\<close>

definition calculate_dual_zscore ::
  "frame \<Rightarrow> string list \<Rightarrow> string list \<Rightarrow> string list \<Rightarrow> error + frame" where
  "calculate_dual_zscore df target_players reference_categories value_cols =
     (case select_targets df target_players of
        Inl e \<Rightarrow> Inl e
      | Inr df_targets \<Rightarrow>
          (case ref_loop df df_targets value_cols reference_categories [] of
             Inl e \<Rightarrow> Inl e
           | Inr all_comparisons \<Rightarrow>
               if all_comparisons = [] then Inr empty_frame
               else (let df_final = pd_concat all_comparisons;
                         cols_to_drop = filter (\<lambda>col. col \<in> set (columns df_final)) value_cols
                     in Inr (drop_columns df_final cols_to_drop))))"

section \<open>Notions the properties are stated with\<close>

text \<open>
  The rows the calculator scores (line 71) and the reference population of a category
  (line 78), as lists of rows of the input frame, in its row order.
\<close>

definition target_rows :: "frame \<Rightarrow> string list \<Rightarrow> row list" where
  "target_rows df target_players =
     filter (\<lambda>r. isin (cell_of r COL_JUGADOR) target_players) (rows df)"

definition reference_rows :: "frame \<Rightarrow> string \<Rightarrow> row list" where
  "reference_rows df ref_cat = filter (\<lambda>r. cell_of r COL_CATEGORIA = Str ref_cat) (rows df)"

text \<open>The values of one metric over the reference population of a category.\<close>

definition reference_values :: "frame \<Rightarrow> string \<Rightarrow> string \<Rightarrow> real list" where
  "reference_values df ref_cat col =
     numbers (map (\<lambda>r. cell_of r col) (reference_rows df ref_cat))"

text \<open>The requested reference categories that have at least one row, in the order requested.\<close>

definition present :: "frame \<Rightarrow> string list \<Rightarrow> string list" where
  "present df reference_categories =
     filter (\<lambda>g. reference_rows df g \<noteq> []) reference_categories"

text \<open>
  The input the calculator is written for. The frame is a proper table (distinct column
  names, every row laid out on them) with the entity and the category column, as
  \<^verbatim>\<open>load_data\<close> delivers it. At least one metric is requested, no metric twice, every
  metric is a column of the frame and holds a number in every row (\<^verbatim>\<open>load_data\<close>
  drops the rows with a missing metric). The names the calculator creates, the score
  columns and the reference column, are not yet columns of the frame.
\<close>

definition well_formed :: "frame \<Rightarrow> string list \<Rightarrow> bool" where
  "well_formed df value_cols \<longleftrightarrow>
     distinct (columns df) \<and> (\<forall>r \<in> set (rows df). map fst r = columns df) \<and>
     COL_JUGADOR \<in> set (columns df) \<and> COL_CATEGORIA \<in> set (columns df) \<and>
     COL_REFERENCIA \<notin> set (columns df) \<and>
     value_cols \<noteq> [] \<and> distinct value_cols \<and> set value_cols \<subseteq> set (columns df) \<and>
     (\<forall>c \<in> set value_cols. new_col_name c \<notin> set (columns df)) \<and>
     (\<forall>r \<in> set (rows df). \<forall>c \<in> set value_cols. is_number (cell_of r c))"

text \<open>Removing the records of one group from the input.\<close>

definition remove_group :: "frame \<Rightarrow> string \<Rightarrow> frame" where
  "remove_group df g = df\<lparr>rows := filter (\<lambda>r. cell_of r COL_CATEGORIA \<noteq> Str g) (rows df)\<rparr>"

text \<open>
  Example data: a frame with the entity, the category and one metric \<open>M\<close>, built from
  (entity, category, value) triples.
\<close>

definition mk_row :: "string \<times> string \<times> real \<Rightarrow> row" where
  "mk_row t = [(COL_JUGADOR, Str (fst t)), (COL_CATEGORIA, Str (fst (snd t))),
               (''M'', Num (snd (snd t)))]"

definition mk_frame :: "(string \<times> string \<times> real) list \<Rightarrow> frame" where
  "mk_frame ts = \<lparr>columns = [COL_JUGADOR, COL_CATEGORIA, ''M''], rows = map mk_row ts\<rparr>"

text \<open>Three reference values with mean 50 and standard deviation 10, and a target at 65.\<close>

definition ex_formula :: frame where
  "ex_formula = mk_frame [(''A'', ''REF'', 40), (''B'', ''REF'', 50), (''C'', ''REF'', 60),
                          (''X'', ''TARGET'', 65)]"

text \<open>Two groups; the targets \<open>X\<close> and \<open>Y\<close> belong to the second.\<close>

definition ex_groups :: frame where
  "ex_groups = mk_frame [(''A'', ''R1'', 10), (''B'', ''R1'', 20), (''C'', ''R1'', 30),
                         (''X'', ''R2'', 25), (''Y'', ''R2'', 35)]"



section \<open>The statistics and the score in double precision\<close>

text \<open>
  pandas computes in IEEE double precision. The definitions above read its numbers as
  reals; the ones here read lines 84 and 97 to 101 for one cell with every operation
  rounded to a double (53 significant bits, round to nearest, ties to even; the exponent
  range is not modelled, so nothing overflows or underflows). They show where the two
  readings part: on reference values that are all the same.

  \<open>rne\<close> rounds a real to the nearest integer, ties to the even one; \<open>fl\<close> rounds a
  real to the nearest double.
\<close>

definition rne :: "real \<Rightarrow> int" where
  "rne x = (let f = \<lfloor>x\<rfloor>; d = x - of_int f
            in if d < 1 / 2 then f else if 1 / 2 < d then f + 1
               else if even f then f else f + 1)"

definition fl :: "real \<Rightarrow> real" where
  "fl x = (if x = 0 then 0
           else (let e = \<lfloor>log 2 \<bar>x\<bar>\<rfloor> - 52 in of_int (rne (x / 2 powi e)) * 2 powi e))"

text \<open>
  The sum of a column as numpy takes it for a short array, left to right; the mean as
  the sum divided by the count; the standard deviation as pandas' \<^verbatim>\<open>nanvar\<close> and
  \<^verbatim>\<open>nanstd\<close> take it (\<^verbatim>\<open>ddof=1\<close>): the squared deviations from that mean,
  summed, divided by \<open>N - 1\<close>, and the square root of the quotient.
\<close>

definition double_sum :: "real list \<Rightarrow> real" where
  "double_sum xs = foldl (\<lambda>s x. fl (s + x)) 0 xs"

definition double_mean :: "real list \<Rightarrow> real option" where
  "double_mean xs =
     (if xs = [] then None else Some (fl (double_sum xs / real (length xs))))"

definition double_std :: "real list \<Rightarrow> real option" where
  "double_std xs =
     (if length xs < 2 then None
      else (let avg = fl (double_sum xs / real (length xs));
                sqr = map (\<lambda>x. fl ((fl (avg - x))\<^sup>2)) xs
            in Some (fl (sqrt (fl (double_sum sqr / real (length xs - 1)))))))"

text \<open>
  Lines 91 to 101 for one raw value \<open>x\<close> against the values \<open>xs\<close> of the reference
  group: the test of line 97 on the standard deviation as computed, then line 101.
\<close>

definition double_score :: "real list \<Rightarrow> real \<Rightarrow> cell" where
  "double_score xs x =
     (let std = double_std xs
      in if std = Some 0 \<or> std = None then Num 0
         else (case double_mean xs of
                 None \<Rightarrow> NaN
               | Some mean \<Rightarrow> Num (fl (fl (x - mean) / the std))))"

section \<open>Closed forms the proofs go through\<close>

text \<open>
  The score of one cell against the values of a reference population, as lines 97 to 101
  compute it from the population's mean and standard deviation.
\<close>

definition score_of :: "real list \<Rightarrow> cell \<Rightarrow> cell" where
  "score_of xs v =
     (if series_std xs = Some 0 \<or> series_std xs = None then Num 0
      else zscore_cell (series_mean xs) (the (series_std xs)) v)"

text \<open>The same score read off a table of statistics, as the loop over the columns does.\<close>

definition score_with :: "stats \<Rightarrow> string \<Rightarrow> cell \<Rightarrow> cell" where
  "score_with st col v =
     (case filter (\<lambda>e. fst e = col) st of
        [(_, mean, std)] \<Rightarrow>
           if std = Some 0 \<or> std = None then Num 0
           else zscore_cell mean (the std) v
      | _ \<Rightarrow> NaN)"

text \<open>
  The frame one pass of the loop over the reference categories appends, the output row of
  one target row against one reference category, and the columns of the output.
\<close>

definition tagged :: "frame \<Rightarrow> string list \<Rightarrow> row list \<Rightarrow> string \<Rightarrow> frame" where
  "tagged df value_cols trows ref_cat =
     \<lparr>columns = columns df @ map new_col_name value_cols @ [COL_REFERENCIA],
      rows = map (\<lambda>r. r @ map (\<lambda>c. (new_col_name c,
                                     score_of (reference_values df ref_cat c) (cell_of r c)))
                            value_cols
                      @ [(COL_REFERENCIA, Str ref_cat)]) trows\<rparr>"

definition out_row :: "frame \<Rightarrow> string list \<Rightarrow> string \<Rightarrow> row \<Rightarrow> row" where
  "out_row df value_cols ref_cat r =
     filter (\<lambda>p. fst p \<notin> set value_cols) r
       @ map (\<lambda>c. (new_col_name c, score_of (reference_values df ref_cat c) (cell_of r c)))
             value_cols
       @ [(COL_REFERENCIA, Str ref_cat)]"

definition out_columns :: "frame \<Rightarrow> string list \<Rightarrow> string list" where
  "out_columns df value_cols =
     filter (\<lambda>c. c \<notin> set value_cols) (columns df)
       @ map new_col_name value_cols @ [COL_REFERENCIA]"

section \<open>The calculator in closed form\<close>

lemma update_fresh: "k \<notin> set (map fst r) \<Longrightarrow> AList.update k v r = r @ [(k, v)]"
  by (induction r) auto

lemma cell_of_append_left: "c \<in> fst ` set r \<Longrightarrow> cell_of (r @ s) c = cell_of r c"
  by (auto simp: cell_of_def map_of_append split: option.splits dest: map_of_eq_None_iff[THEN iffD1])

lemma new_col_name_inj: "new_col_name a = new_col_name b \<longleftrightarrow> a = b"
  by (simp add: new_col_name_def)

lemma new_col_name_not_ref:
  "new_col_name a \<noteq> COL_REFERENCIA" "COL_REFERENCIA \<noteq> new_col_name a"
  by (simp_all add: new_col_name_def COL_REFERENCIA_def)

lemma score_cols_closed:
  assumes "distinct cols"
    and "set cols \<subseteq> set (columns d)"
    and "\<forall>r \<in> set (rows d). map fst r = columns d"
    and "\<forall>c \<in> set cols. new_col_name c \<notin> set (columns d)"
    and "\<forall>r \<in> set (rows d). \<forall>c \<in> set cols. \<not> is_str (cell_of r c)"
    and "\<forall>c \<in> set cols. \<exists>m s. filter (\<lambda>e. fst e = c) st = [(c, m, s)]"
  shows "score_cols st cols d =
           Inr \<lparr>columns = columns d @ map new_col_name cols,
                rows = map (\<lambda>r. r @ map (\<lambda>c. (new_col_name c, score_with st c (cell_of r c))) cols) (rows d)\<rparr>"
  using assms
proof (induction cols arbitrary: d)
  case Nil
  then show ?case by simp
next
  case (Cons col cols)
  obtain m s where ms: "filter (\<lambda>e. fst e = col) st = [(col, m, s)]"
    using Cons.prems(6) by auto
  let ?f = "\<lambda>r. score_with st col (cell_of r col)"
  let ?d = "assign d (new_col_name col) ?f"
  have fresh: "new_col_name col \<notin> set (columns d)" using Cons.prems(4) by simp
  have rows': "rows ?d = map (\<lambda>r. r @ [(new_col_name col, ?f r)]) (rows d)"
  proof -
    have "AList.update (new_col_name col) v r = r @ [(new_col_name col, v)]"
      if "r \<in> set (rows d)" for r v
      using that Cons.prems(3) fresh by (intro update_fresh) simp
    then show ?thesis by (simp add: assign_def)
  qed
  have cols': "columns ?d = columns d @ [new_col_name col]"
    using fresh by (simp add: assign_def)
  have step: "score_cols st (col # cols) d = score_cols st cols ?d"
  proof (cases "s = Some 0 \<or> s = None")
    case True
    then have "?f = (\<lambda>r. Num 0)" using ms by (auto simp: score_with_def fun_eq_iff)
    then show ?thesis using ms True by auto
  next
    case False
    then have "?f = (\<lambda>r. zscore_cell m (the s) (cell_of r col))"
      using ms by (auto simp: score_with_def fun_eq_iff)
    moreover have "col \<in> set (columns d)" using Cons.prems(2) by simp
    moreover have "\<not> (\<exists>v \<in> set (col_values d col). is_str v)"
      using Cons.prems(5) by (auto simp: col_values_def)
    ultimately show ?thesis using ms False by auto
  qed
  have keep: "cell_of (r @ [(new_col_name col, v)]) c = cell_of r c"
    if "r \<in> set (rows d)" "c \<in> set cols" for r c v
  proof -
    have "c \<in> fst ` set r" using that Cons.prems(2,3) by (metis list.set_intros(2) set_map subsetD)
    then show ?thesis by (rule cell_of_append_left)
  qed
  have IH: "score_cols st cols ?d =
     Inr \<lparr>columns = columns ?d @ map new_col_name cols,
          rows = map (\<lambda>r. r @ map (\<lambda>c. (new_col_name c, score_with st c (cell_of r c))) cols) (rows ?d)\<rparr>"
  proof (rule Cons.IH)
    show "distinct cols" using Cons.prems(1) by simp
    show "set cols \<subseteq> set (columns ?d)" using Cons.prems(2) cols' by auto
    show "\<forall>r\<in>set (rows ?d). map fst r = columns ?d"
      using Cons.prems(3) rows' cols' by auto
    show "\<forall>c\<in>set cols. new_col_name c \<notin> set (columns ?d)"
      using Cons.prems(1,4) cols' by (auto simp: new_col_name_inj)
    show "\<forall>r\<in>set (rows ?d). \<forall>c\<in>set cols. \<not> is_str (cell_of r c)"
      using Cons.prems(5) rows' keep by auto
    show "\<forall>c\<in>set cols. \<exists>m s. filter (\<lambda>e. fst e = c) st = [(c, m, s)]"
      using Cons.prems(6) by simp
  qed
  show ?case
    unfolding step IH using cols' rows' keep by (simp add: comp_def)
qed

lemma agg_stats_closed:
  assumes "value_cols \<noteq> []" and "set value_cols \<subseteq> set (columns d)"
    and "\<forall>r \<in> set (rows d). \<forall>c \<in> set value_cols. \<not> is_str (cell_of r c)"
  shows "agg_stats d value_cols =
           Inr (map (\<lambda>c. (c, series_mean (numbers (col_values d c)),
                            series_std (numbers (col_values d c)))) value_cols)"
  using assms by (auto simp: agg_stats_def col_values_def)

lemma filter_stats:
  assumes "distinct cols" and "c \<in> set cols"
  shows "filter (\<lambda>e. fst e = c) (map (\<lambda>c. (c, f c, g c)) cols) = [(c, f c, g c)]"
  using assms by (induction cols) (auto simp: filter_empty_conv)

lemma score_with_stats:
  assumes "distinct cols" and "c \<in> set cols"
  shows "score_with (map (\<lambda>c. (c, series_mean (xs c), series_std (xs c))) cols) c v
           = score_of (xs c) v"
  by (simp add: score_with_def score_of_def filter_stats[OF assms])

lemma not_str_of_num: "is_number v \<Longrightarrow> \<not> is_str v"
  by (cases v) auto

lemma ref_pass:
  assumes c: "well_formed df value_cols"
    and sub: "set trows \<subseteq> set (rows df)"
    and dref: "dref = df\<lparr>rows := reference_rows df ref_cat\<rparr>"
  shows "\<exists>st d. agg_stats dref value_cols = Inr st
           \<and> score_cols st value_cols (df\<lparr>rows := trows\<rparr>) = Inr d
           \<and> assign d COL_REFERENCIA (\<lambda>r. Str ref_cat) = tagged df value_cols trows ref_cat"
proof -
  let ?xs = "\<lambda>c. numbers (col_values dref c)"
  let ?st = "map (\<lambda>c. (c, series_mean (?xs c), series_std (?xs c))) value_cols"
  let ?dt = "df\<lparr>rows := trows\<rparr>"
  let ?d = "\<lparr>columns = columns ?dt @ map new_col_name value_cols,
             rows = map (\<lambda>r. r @ map (\<lambda>c. (new_col_name c, score_with ?st c (cell_of r c)))
                                   value_cols) (rows ?dt)\<rparr>"
  have dist: "distinct value_cols" and vsub: "set value_cols \<subseteq> set (columns df)"
    and keys: "\<forall>r \<in> set (rows df). map fst r = columns df"
    and fresh: "\<forall>c \<in> set value_cols. new_col_name c \<notin> set (columns df)"
    and nums: "\<forall>r \<in> set (rows df). \<forall>c \<in> set value_cols. is_number (cell_of r c)"
    and reffresh: "COL_REFERENCIA \<notin> set (columns df)"
    and ne: "value_cols \<noteq> []"
    using c by (auto simp: well_formed_def)
  have agg: "agg_stats dref value_cols = Inr ?st"
  proof (rule agg_stats_closed[OF ne])
    show "set value_cols \<subseteq> set (columns dref)" using vsub dref by simp
    show "\<forall>r\<in>set (rows dref). \<forall>c\<in>set value_cols. \<not> is_str (cell_of r c)"
      using nums dref not_str_of_num by (fastforce simp: reference_rows_def)
  qed
  have sc: "score_cols ?st value_cols ?dt = Inr ?d"
  proof (rule score_cols_closed[OF dist])
    show "set value_cols \<subseteq> set (columns ?dt)" using vsub by simp
    show "\<forall>r\<in>set (rows ?dt). map fst r = columns ?dt" using keys sub by auto
    show "\<forall>c\<in>set value_cols. new_col_name c \<notin> set (columns ?dt)" using fresh by simp
    show "\<forall>r\<in>set (rows ?dt). \<forall>c\<in>set value_cols. \<not> is_str (cell_of r c)"
      using nums sub not_str_of_num by fastforce
    show "\<forall>c\<in>set value_cols. \<exists>m s. filter (\<lambda>e. fst e = c) ?st = [(c, m, s)]"
      by (intro ballI exI) (rule filter_stats[OF dist])
  qed
  have xs: "?xs c = reference_values df ref_cat c" for c
    by (simp add: dref col_values_def reference_values_def)
  have upd: "AList.update COL_REFERENCIA v (r @ map (\<lambda>c. (new_col_name c, f c)) value_cols)
               = r @ map (\<lambda>c. (new_col_name c, f c)) value_cols @ [(COL_REFERENCIA, v)]"
    if "r \<in> set trows" for r v f
  proof -
    have "map fst r = columns df" using that keys sub by auto
    then have "COL_REFERENCIA \<notin> set (map fst (r @ map (\<lambda>c. (new_col_name c, f c)) value_cols))"
      using reffresh by (auto simp: comp_def new_col_name_not_ref)
    then show ?thesis by (simp add: update_fresh)
  qed
  have "assign ?d COL_REFERENCIA (\<lambda>r. Str ref_cat) = tagged df value_cols trows ref_cat"
    using reffresh upd
    by (auto simp: assign_def tagged_def score_with_stats[OF dist] xs new_col_name_not_ref)
  with agg sc show ?thesis by blast
qed

lemma ref_loop_closed:
  assumes c: "well_formed df value_cols"
    and sub: "set trows \<subseteq> set (rows df)"
  shows "ref_loop df (df\<lparr>rows := trows\<rparr>) value_cols reference_categories acc =
           Inr (acc @ map (tagged df value_cols trows) (present df reference_categories))"
proof (induction reference_categories arbitrary: acc)
  case Nil
  then show ?case by (simp add: present_def)
next
  case (Cons g gs)
  have cat: "COL_CATEGORIA \<in> set (columns df)" and cne: "columns df \<noteq> []"
    using c by (auto simp: well_formed_def)
  have sel: "select_reference df g = Inr (df\<lparr>rows := reference_rows df g\<rparr>)"
    using cat by (simp add: select_reference_def reference_rows_def)
  show ?case
  proof (cases "reference_rows df g = []")
    case True
    then show ?thesis using sel Cons.IH cne by (simp add: df_empty_def present_def)
  next
    case False
    obtain st d where "agg_stats (df\<lparr>rows := reference_rows df g\<rparr>) value_cols = Inr st"
      and "score_cols st value_cols (df\<lparr>rows := trows\<rparr>) = Inr d"
      and "assign d COL_REFERENCIA (\<lambda>r. Str g) = tagged df value_cols trows g"
      using ref_pass[OF c sub refl] by blast
    then show ?thesis using sel False Cons.IH cne by (simp add: df_empty_def present_def)
  qed
qed

lemma union_cols_absorb: "set cs \<subseteq> set acc \<Longrightarrow> union_cols acc cs = acc"
  by (induction cs arbitrary: acc) auto

lemma union_cols_fresh:
  "distinct cs \<Longrightarrow> set cs \<inter> set acc = {} \<Longrightarrow> union_cols acc cs = acc @ cs"
  by (induction cs arbitrary: acc) auto

lemma foldl_union_cols_same:
  "\<forall>f \<in> set fs. columns f = cs \<Longrightarrow> foldl union_cols cs (map columns fs) = cs"
  by (induction fs) (auto simp: union_cols_absorb)

lemma reindex_id:
  assumes "distinct (map fst r)"
  shows "reindex (map fst r) r = r"
proof -
  have "(fst p, cell_of r (fst p)) = p" if "p \<in> set r" for p
  proof -
    have "map_of r (fst p) = Some (snd p)" using assms that by (cases p) simp
    then show ?thesis by (simp add: cell_of_def)
  qed
  then show ?thesis by (simp add: reindex_def comp_def map_idI)
qed

lemma pd_concat_same:
  assumes "fs \<noteq> []" and "distinct cs" and "\<forall>f \<in> set fs. columns f = cs"
    and "\<forall>f \<in> set fs. \<forall>r \<in> set (rows f). map fst r = cs"
  shows "pd_concat fs = \<lparr>columns = cs, rows = concat (map rows fs)\<rparr>"
proof -
  obtain f fs' where fs: "fs = f # fs'" using assms(1) by (cases fs) auto
  have "foldl union_cols [] (map columns fs) = foldl union_cols cs (map columns fs')"
    using assms(2,3) fs union_cols_fresh[of cs "[]"] by simp
  also have "\<dots> = cs" using assms(3) fs by (intro foldl_union_cols_same) simp
  finally have cols: "foldl union_cols [] (map columns fs) = cs" .
  have "map (reindex cs) (rows g) = rows g" if "g \<in> set fs" for g
  proof (rule map_idI)
    fix r assume "r \<in> set (rows g)"
    then have "map fst r = cs" using assms(4) that by blast
    then show "reindex cs r = r" using reindex_id[of r] assms(2) by simp
  qed
  then have eq: "map (\<lambda>f. map (reindex cs) (rows f)) fs = map rows fs"
    by (intro map_cong) simp_all
  show ?thesis by (simp only: pd_concat_def cols Let_def eq)
qed

lemma calculate_closed:
  assumes c: "well_formed df value_cols"
  shows "calculate_dual_zscore df target_players reference_categories value_cols =
           Inr (if present df reference_categories = [] then empty_frame
                else \<lparr>columns = out_columns df value_cols,
                      rows = concat (map (\<lambda>g. map (out_row df value_cols g)
                                                  (target_rows df target_players))
                                         (present df reference_categories))\<rparr>)"
proof -
  let ?ts = "target_rows df target_players"
  let ?gs = "present df reference_categories"
  let ?cs = "columns df @ map new_col_name value_cols @ [COL_REFERENCIA]"
  let ?fs = "map (tagged df value_cols ?ts) ?gs"
  have dist: "distinct value_cols" and vsub: "set value_cols \<subseteq> set (columns df)"
    and keys: "\<forall>r \<in> set (rows df). map fst r = columns df"
    and fresh: "\<forall>c \<in> set value_cols. new_col_name c \<notin> set (columns df)"
    and reffresh: "COL_REFERENCIA \<notin> set (columns df)"
    and dcols: "distinct (columns df)" and jug: "COL_JUGADOR \<in> set (columns df)"
    using c by (auto simp: well_formed_def)
  have sel: "select_targets df target_players = Inr (df\<lparr>rows := ?ts\<rparr>)"
    using jug by (simp add: select_targets_def target_rows_def)
  have sub: "set ?ts \<subseteq> set (rows df)" by (auto simp: target_rows_def)
  have loop: "ref_loop df (df\<lparr>rows := ?ts\<rparr>) value_cols reference_categories [] = Inr ?fs"
    using ref_loop_closed[OF c sub, of reference_categories "[]"] by simp
  show ?thesis
  proof (cases "?gs = []")
    case True
    then show ?thesis using sel loop by (simp add: calculate_dual_zscore_def)
  next
    case False
    have dcs: "distinct ?cs"
      using dcols dist fresh reffresh
      by (auto simp: distinct_map new_col_name_inj new_col_name_not_ref intro!: inj_onI)
    have cat: "pd_concat ?fs = \<lparr>columns = ?cs, rows = concat (map rows ?fs)\<rparr>"
    proof (rule pd_concat_same)
      show "?fs \<noteq> []" using False by simp
      show "distinct ?cs" by (rule dcs)
      show "\<forall>f\<in>set ?fs. columns f = ?cs" by (auto simp: tagged_def)
      show "\<forall>f\<in>set ?fs. \<forall>r\<in>set (rows f). map fst r = ?cs"
        using keys sub by (auto simp: tagged_def comp_def)
    qed
    have todrop: "filter (\<lambda>col. col \<in> set ?cs) value_cols = value_cols"
      using vsub by (auto simp: filter_id_conv)
    have scores_kept: "filter (\<lambda>p. fst p \<notin> set value_cols) (map (\<lambda>c. (new_col_name c, f c)) value_cols)
                         = map (\<lambda>c. (new_col_name c, f c)) value_cols" for f :: "string \<Rightarrow> cell"
      using fresh vsub by (auto simp: filter_id_conv)
    have ref_kept: "COL_REFERENCIA \<notin> set value_cols" using reffresh vsub by auto
    have names_kept: "filter (\<lambda>c. c \<notin> set value_cols) (map new_col_name value_cols)
                        = map new_col_name value_cols"
      using fresh vsub by (auto simp: filter_id_conv)
    have ref_only: "filter (\<lambda>c. c \<notin> set value_cols) [COL_REFERENCIA] = [COL_REFERENCIA]"
      using ref_kept by simp
    have cols_out: "filter (\<lambda>c. c \<notin> set value_cols) ?cs = out_columns df value_cols"
      by (simp only: out_columns_def filter_append names_kept ref_only)
    have rows_out: "map (filter (\<lambda>p. fst p \<notin> set value_cols)) (rows (tagged df value_cols ?ts g))
                      = map (out_row df value_cols g) ?ts" for g
      using scores_kept ref_kept by (simp add: tagged_def out_row_def comp_def)
    have "drop_columns (pd_concat ?fs) value_cols =
            \<lparr>columns = out_columns df value_cols,
             rows = concat (map (\<lambda>g. map (out_row df value_cols g) ?ts) ?gs)\<rparr>"
    proof -
      have rows_all: "map (filter (\<lambda>p. fst p \<notin> set value_cols)) (concat (map rows ?fs))
                        = concat (map (\<lambda>g. map (out_row df value_cols g) ?ts) ?gs)"
        by (simp only: map_concat map_map comp_def rows_out)
      show ?thesis
        unfolding cat by (simp only: drop_columns_def frame.simps cols_out rows_all)
    qed
    then show ?thesis
      using sel loop False cat todrop by (simp add: calculate_dual_zscore_def Let_def)
  qed
qed

section \<open>Reading the output rows\<close>


lemma map_of_absent: "c \<notin> set (map fst r) \<Longrightarrow> map_of r c = None"
  by (induction r) auto

lemma cell_of_append_right: "c \<notin> set (map fst r) \<Longrightarrow> cell_of (r @ s) c = cell_of s c"
  by (simp add: cell_of_def map_of_append map_add_def map_of_absent del: set_map)


lemma target_rows_keys:
  "well_formed df value_cols \<Longrightarrow> r \<in> set (target_rows df target_players) \<Longrightarrow>
     map fst r = columns df"
  by (simp add: well_formed_def target_rows_def)

lemma keys_filter_subset: "set (map fst (filter P r)) \<subseteq> set (map fst r)"
  by (induction r) auto



lemmas example_defs = mk_frame_def mk_row_def COL_JUGADOR_def COL_CATEGORIA_def
  COL_REFERENCIA_def new_col_name_def cell_of_def

section \<open>The score\<close>



section \<open>Reference groups without records, empty selections\<close>

lemma out_row_tag:
  assumes "well_formed df value_cols" and "map fst r = columns df"
  shows "cell_of (out_row df value_cols g r) COL_REFERENCIA = Str g"
proof -
  have "COL_REFERENCIA \<notin> set (columns df)" using assms(1) by (simp add: well_formed_def)
  then have a: "COL_REFERENCIA \<notin> set (map fst (filter (\<lambda>p. fst p \<notin> set value_cols) r))"
    using keys_filter_subset[of "\<lambda>p. fst p \<notin> set value_cols" r] assms(2) by auto
  have b: "COL_REFERENCIA \<notin> set (map fst (map (\<lambda>c. (new_col_name c, f c)) value_cols))"
    for f :: "string \<Rightarrow> cell"
    by (auto simp: new_col_name_not_ref)
  show ?thesis
    unfolding out_row_def cell_of_append_right[OF a] cell_of_append_right[OF b]
    by (simp add: cell_of_def)
qed

lemma ref_loop_all_empty:
  assumes "COL_CATEGORIA \<in> set (columns df)"
    and "\<forall>g \<in> set reference_categories. reference_rows df g = []"
  shows "ref_loop df df_targets value_cols reference_categories acc = Inr acc"
  using assms(2)
proof (induction reference_categories)
  case Nil
  then show ?case by simp
next
  case (Cons g gs)
  have "select_reference df g = Inr (df\<lparr>rows := []\<rparr>)"
    using assms(1) Cons.prems by (simp add: select_reference_def reference_rows_def)
  then show ?case using Cons by (simp add: df_empty_def)
qed

lemma calculate_no_reference:
  assumes "COL_JUGADOR \<in> set (columns df)" and "COL_CATEGORIA \<in> set (columns df)"
    and "\<forall>g \<in> set reference_categories. reference_rows df g = []"
  shows "calculate_dual_zscore df target_players reference_categories value_cols = Inr empty_frame"
  using assms(1) ref_loop_all_empty[OF assms(2,3)]
  by (simp add: calculate_dual_zscore_def select_targets_def)

lemma out_rows_member:
  assumes "r \<in> set (concat (map (\<lambda>g. map (f g) ts) gs))"
  shows "\<exists>g \<in> set gs. \<exists>t \<in> set ts. r = f g t"
  using assms by auto

text \<open>
  Claim C3. A reference group that no record of the input belongs to tags no row of the
  result, whatever targets and metrics are requested; and when no requested reference
  group has a record, the calculator returns the empty frame and raises nothing. The
  second part needs only the entity and the category column.
\<close>

theorem empty_reference_skipped:
  "(well_formed df value_cols \<and> reference_rows df g = [] \<longrightarrow>
      (\<exists>res. calculate_dual_zscore df target_players reference_categories value_cols = Inr res
         \<and> (\<forall>r \<in> set (rows res). cell_of r COL_REFERENCIA \<noteq> Str g)))
   \<and> (COL_JUGADOR \<in> set (columns df) \<and> COL_CATEGORIA \<in> set (columns df)
        \<and> (\<forall>g \<in> set reference_categories. reference_rows df g = []) \<longrightarrow>
      calculate_dual_zscore df target_players reference_categories value_cols = Inr empty_frame)"
proof (intro conjI impI)
  assume "well_formed df value_cols \<and> reference_rows df g = []"
  then have wf: "well_formed df value_cols" and emp: "reference_rows df g = []" by auto
  let ?ts = "target_rows df target_players"
  let ?gs = "present df reference_categories"
  let ?out = "concat (map (\<lambda>g. map (out_row df value_cols g) ?ts) ?gs)"
  have tagged: "cell_of r COL_REFERENCIA \<noteq> Str g" if mem: "r \<in> set ?out" for r
  proof -
    obtain g' t where g': "g' \<in> set ?gs" and t: "t \<in> set ?ts"
      and r: "r = out_row df value_cols g' t"
      using out_rows_member[OF mem] by blast
    have "g' \<noteq> g" using g' emp by (auto simp: present_def)
    moreover have "cell_of r COL_REFERENCIA = Str g'"
      unfolding r by (rule out_row_tag[OF wf target_rows_keys[OF wf t]])
    ultimately show ?thesis by simp
  qed
  show "\<exists>res. calculate_dual_zscore df target_players reference_categories value_cols = Inr res
          \<and> (\<forall>r \<in> set (rows res). cell_of r COL_REFERENCIA \<noteq> Str g)"
    unfolding calculate_closed[OF wf] using tagged by (simp add: empty_frame_def)
next
  assume "COL_JUGADOR \<in> set (columns df) \<and> COL_CATEGORIA \<in> set (columns df)
            \<and> (\<forall>g \<in> set reference_categories. reference_rows df g = [])"
  then show "calculate_dual_zscore df target_players reference_categories value_cols
               = Inr empty_frame"
    by (intro calculate_no_reference) auto
qed

text \<open>
  One requested group without records beside one with records, and a request of groups
  without records only.
\<close>

theorem empty_reference_skipped_witness:
  "(well_formed ex_formula [''M''] \<and> reference_rows ex_formula ''NONE'' = []) \<and>
   (\<exists>res. calculate_dual_zscore ex_formula [''X''] [''NONE'', ''REF''] [''M''] = Inr res
      \<and> (\<forall>r \<in> set (rows res). cell_of r COL_REFERENCIA \<noteq> Str ''NONE''))
   \<and> (COL_JUGADOR \<in> set (columns ex_formula) \<and> COL_CATEGORIA \<in> set (columns ex_formula)
        \<and> reference_rows ex_formula ''NONE'' = [] \<and> reference_rows ex_formula ''OTHER'' = [])
   \<and> calculate_dual_zscore ex_formula [''X''] [''NONE'', ''OTHER''] [''M''] = Inr empty_frame"
proof -
  have h1: "well_formed ex_formula [''M''] \<and> reference_rows ex_formula ''NONE'' = []"
    by (simp add: ex_formula_def well_formed_def reference_rows_def example_defs)
  have h2: "COL_JUGADOR \<in> set (columns ex_formula) \<and> COL_CATEGORIA \<in> set (columns ex_formula)
        \<and> (\<forall>g \<in> set [''NONE'', ''OTHER'']. reference_rows ex_formula g = [])"
    by (simp add: ex_formula_def reference_rows_def example_defs)
  from empty_reference_skipped[of ex_formula "[''M'']" "''NONE''" "[''X'']" "[''NONE'', ''REF'']"]
       empty_reference_skipped[of ex_formula "[''M'']" "''NONE''" "[''X'']" "[''NONE'', ''OTHER'']"]
       h1 h2
  show ?thesis by simp
qed

text \<open>
  Claim C4 says that an empty list of targets, of reference groups or of metrics gives an
  empty result at once. The calculator has no such early exit (the guard is in
  \<^verbatim>\<open>main\<close>, before the call, which passes all the metrics). With no metric and a
  reference group that has records, the aggregation has no column to work on and raises.
\<close>

theorem empty_metrics_counterexample:
  "calculate_dual_zscore ex_formula [''X''] [''REF''] [] = Inl ValueError"
  by (simp add: calculate_dual_zscore_def select_targets_def select_reference_def
        agg_stats_def df_empty_def ex_formula_def example_defs)

text \<open>
  Claim C4 as amended. With no target the result has no rows (at least one metric being
  requested); with no reference group the result is the empty frame; with no metric the
  result is the empty frame when no requested reference group has a record.
\<close>

theorem empty_selections:
  "(well_formed df value_cols \<longrightarrow>
      (\<exists>res. calculate_dual_zscore df [] reference_categories value_cols = Inr res
         \<and> rows res = []))
   \<and> (COL_JUGADOR \<in> set (columns df) \<longrightarrow>
        calculate_dual_zscore df target_players [] value_cols = Inr empty_frame)
   \<and> (COL_JUGADOR \<in> set (columns df) \<and> COL_CATEGORIA \<in> set (columns df)
        \<and> (\<forall>g \<in> set reference_categories. reference_rows df g = []) \<longrightarrow>
        calculate_dual_zscore df target_players reference_categories [] = Inr empty_frame)"
proof (intro conjI impI)
  assume wf: "well_formed df value_cols"
  have "target_rows df [] = []"
  proof -
    have "\<not> isin v []" for v by (cases v) auto
    then show ?thesis by (simp add: target_rows_def)
  qed
  then show "\<exists>res. calculate_dual_zscore df [] reference_categories value_cols = Inr res
               \<and> rows res = []"
    unfolding calculate_closed[OF wf] by (simp add: empty_frame_def)
next
  assume "COL_JUGADOR \<in> set (columns df)"
  then show "calculate_dual_zscore df target_players [] value_cols = Inr empty_frame"
    by (simp add: calculate_dual_zscore_def select_targets_def)
next
  assume "COL_JUGADOR \<in> set (columns df) \<and> COL_CATEGORIA \<in> set (columns df)
            \<and> (\<forall>g \<in> set reference_categories. reference_rows df g = [])"
  then show "calculate_dual_zscore df target_players reference_categories [] = Inr empty_frame"
    by (intro calculate_no_reference) auto
qed

theorem empty_selections_witness:
  "well_formed ex_formula [''M'']
   \<and> (\<exists>res. calculate_dual_zscore ex_formula [] [''REF''] [''M''] = Inr res \<and> rows res = [])
   \<and> COL_JUGADOR \<in> set (columns ex_formula)
   \<and> calculate_dual_zscore ex_formula [''X''] [] [''M''] = Inr empty_frame
   \<and> (COL_JUGADOR \<in> set (columns ex_formula) \<and> COL_CATEGORIA \<in> set (columns ex_formula)
        \<and> reference_rows ex_formula ''NONE'' = [])
   \<and> calculate_dual_zscore ex_formula [''X''] [''NONE''] [] = Inr empty_frame"
proof -
  have h1: "well_formed ex_formula [''M'']"
    by (simp add: ex_formula_def well_formed_def example_defs)
  have h2: "COL_JUGADOR \<in> set (columns ex_formula) \<and> COL_CATEGORIA \<in> set (columns ex_formula)
        \<and> (\<forall>g \<in> set [''NONE'']. reference_rows ex_formula g = [])"
    by (simp add: ex_formula_def reference_rows_def example_defs)
  from empty_selections[of ex_formula "[''M'']" "[''REF'']" "[''X'']"]
       empty_selections[of ex_formula "[]" "[''NONE'']" "[''X'']"] h1 h2
  show ?thesis by simp
qed

section \<open>The columns of the result\<close>

lemma keys_filter: "map fst (filter (\<lambda>p. P (fst p)) r) = filter P (map fst r)"
  by (induction r) auto

lemma out_row_keys:
  assumes "map fst r = columns df"
  shows "map fst (out_row df value_cols g r) = out_columns df value_cols"
proof -
  have "map fst (filter (\<lambda>p. fst p \<notin> set value_cols) r)
          = filter (\<lambda>c. c \<notin> set value_cols) (columns df)"
    unfolding assms[symmetric] by (rule keys_filter)
  then show ?thesis by (simp add: out_row_def out_columns_def comp_def)
qed

lemma out_columns_no_metric:
  assumes "well_formed df value_cols"
  shows "set value_cols \<inter> set (out_columns df value_cols) = {}"
proof -
  have sub: "set value_cols \<subseteq> set (columns df)"
    and fresh: "\<forall>c \<in> set value_cols. new_col_name c \<notin> set (columns df)"
    and ref: "COL_REFERENCIA \<notin> set (columns df)"
    using assms by (auto simp: well_formed_def)
  show ?thesis using sub fresh ref by (auto simp: out_columns_def)
qed

text \<open>
  Claim C5 says that an output row carries the entity identifier, the reference group
  label and the scores, and nothing else. Line 115 drops the columns of the requested
  metrics only, so the row's own category (and any further column of the input) stays.
\<close>

theorem output_columns_counterexample:
  "calculate_dual_zscore ex_formula [''X''] [''REF''] [''M''] =
     Inr \<lparr>columns = [COL_JUGADOR, COL_CATEGORIA, new_col_name ''M'', COL_REFERENCIA],
          rows = [[(COL_JUGADOR, Str ''X''), (COL_CATEGORIA, Str ''TARGET''),
                   (new_col_name ''M'', Num (3 / 2)), (COL_REFERENCIA, Str ''REF'')]]\<rparr>"
  by (simp add: calculate_dual_zscore_def select_targets_def select_reference_def
        agg_stats_def df_empty_def col_values_def series_mean_def series_std_def assign_def
        pd_concat_def reindex_def drop_columns_def ex_formula_def example_defs)

text \<open>
  Claim C5 as amended. In a result other than the empty frame the columns are the columns
  of the input without the requested metrics (the entity identifier, the row's own
  category and any further column), then one score column per requested metric, named
  \<^verbatim>\<open>Z-Score\<close> followed by the metric, then the reference group label; every row
  is laid out on exactly these columns, and no requested metric is among them.
\<close>

theorem output_columns:
  assumes "well_formed df value_cols"
  shows "\<exists>res. calculate_dual_zscore df target_players reference_categories value_cols = Inr res
           \<and> (res \<noteq> empty_frame \<longrightarrow>
                columns res = filter (\<lambda>c. c \<notin> set value_cols) (columns df)
                                @ map new_col_name value_cols @ [COL_REFERENCIA]
                \<and> (\<forall>r \<in> set (rows res). map fst r = columns res)
                \<and> set value_cols \<inter> set (columns res) = {})"
proof (cases "present df reference_categories = []")
  case True
  then show ?thesis unfolding calculate_closed[OF assms] by simp
next
  case False
  let ?ts = "target_rows df target_players"
  let ?gs = "present df reference_categories"
  let ?out = "concat (map (\<lambda>g. map (out_row df value_cols g) ?ts) ?gs)"
  have keys: "map fst r = out_columns df value_cols" if mem: "r \<in> set ?out" for r
  proof -
    obtain g t where t: "t \<in> set ?ts" and r: "r = out_row df value_cols g t"
      using out_rows_member[OF mem] by blast
    show ?thesis unfolding r by (rule out_row_keys[OF target_rows_keys[OF assms t]])
  qed
  have cols: "out_columns df value_cols = filter (\<lambda>c. c \<notin> set value_cols) (columns df)
                @ map new_col_name value_cols @ [COL_REFERENCIA]"
    by (simp add: out_columns_def)
  show ?thesis
    unfolding calculate_closed[OF assms]
    using False keys out_columns_no_metric[OF assms] cols by simp
qed

theorem output_columns_witness:
  "well_formed ex_formula [''M''] \<and>
   (\<exists>res. calculate_dual_zscore ex_formula [''X''] [''REF''] [''M''] = Inr res
      \<and> res \<noteq> empty_frame
      \<and> columns res = [COL_JUGADOR, COL_CATEGORIA, new_col_name ''M'', COL_REFERENCIA])"
proof -
  have h1: "well_formed ex_formula [''M'']"
    by (simp add: ex_formula_def well_formed_def example_defs)
  have ne: "present ex_formula [''REF''] \<noteq> []"
    by (simp add: ex_formula_def present_def reference_rows_def example_defs)
  have nonempty: "calculate_dual_zscore ex_formula [''X''] [''REF''] [''M''] \<noteq> Inr empty_frame"
    unfolding calculate_closed[OF h1] using ne by (simp add: empty_frame_def out_columns_def)
  have cols: "filter (\<lambda>c. c \<noteq> ''M'') (columns ex_formula) = [COL_JUGADOR, COL_CATEGORIA]"
    by (simp add: ex_formula_def example_defs)
  from output_columns[OF h1, of "[''X'']" "[''REF'']"] h1 nonempty
  show ?thesis by (auto simp: cols)
qed

section \<open>Independence of the reference groups\<close>

lemma map_of_filter_key:
  "map_of (filter (\<lambda>p. P (fst p)) r) k = (if P k then map_of r k else None)"
  by (induction r) auto

lemma cell_of_filter_key:
  "cell_of (filter (\<lambda>p. P (fst p)) r) k = (if P k then cell_of r k else NaN)"
  by (simp add: cell_of_def map_of_filter_key)

lemma cell_of_absent: "k \<notin> set (map fst r) \<Longrightarrow> cell_of r k = NaN"
  by (simp add: cell_of_def map_of_absent)

lemma out_row_keep:
  assumes "well_formed df value_cols" and "map fst r = columns df" and "k \<in> set (columns df)"
  shows "cell_of (out_row df value_cols g r) k = (if k \<in> set value_cols then NaN else cell_of r k)"
proof -
  let ?A = "filter (\<lambda>p. fst p \<notin> set value_cols) r"
  have fresh: "\<forall>c \<in> set value_cols. new_col_name c \<notin> set (columns df)"
    and ref: "COL_REFERENCIA \<notin> set (columns df)"
    using assms(1) by (auto simp: well_formed_def)
  have rest: "k \<notin> set (map fst (map (\<lambda>c. (new_col_name c, f c)) value_cols
                                    @ [(COL_REFERENCIA, Str g)]))"
    for f :: "string \<Rightarrow> cell"
    using fresh ref assms(3) by auto
  show ?thesis
  proof (cases "k \<in> set value_cols")
    case True
    have "k \<notin> set (map fst ?A)" using True by auto
    then have "cell_of (out_row df value_cols g r) k
                 = cell_of (map (\<lambda>c. (new_col_name c,
                                   score_of (reference_values df g c) (cell_of r c))) value_cols
                            @ [(COL_REFERENCIA, Str g)]) k"
      unfolding out_row_def by (rule cell_of_append_right)
    also have "\<dots> = NaN" by (rule cell_of_absent[OF rest])
    finally show ?thesis using True by simp
  next
    case False
    have "k \<in> set (map fst r)" using assms(2,3) by simp
    then obtain p where p: "p \<in> set r" "fst p = k" by auto
    then have "p \<in> set ?A" using False by simp
    then have "k \<in> fst ` set ?A" using p(2) by (intro image_eqI[of _ _ p]) simp_all
    then have "cell_of (out_row df value_cols g r) k = cell_of ?A k"
      unfolding out_row_def by (rule cell_of_append_left)
    also have "\<dots> = cell_of r k"
      using False cell_of_filter_key[of "\<lambda>c. c \<notin> set value_cols" r k] by simp
    finally show ?thesis using False by simp
  qed
qed

lemma out_row_is_str:
  assumes "well_formed df value_cols" and "r \<in> set (rows df)" and "k \<in> set (columns df)"
  shows "cell_of (out_row df value_cols g r) k = Str s \<longleftrightarrow> cell_of r k = Str s"
proof -
  have keys: "map fst r = columns df" using assms(1,2) by (simp add: well_formed_def)
  show ?thesis
  proof (cases "k \<in> set value_cols")
    case True
    then have "is_number (cell_of r k)" using assms(1,2) by (simp add: well_formed_def)
    then have "cell_of r k \<noteq> Str s" by (cases "cell_of r k") auto
    then show ?thesis using True out_row_keep[OF assms(1) keys assms(3)] by simp
  next
    case False
    then show ?thesis using out_row_keep[OF assms(1) keys assms(3)] by simp
  qed
qed

lemma rows_closed:
  "rows (if gs = [] then empty_frame
         else \<lparr>columns = cs, rows = concat (map (\<lambda>g. map (f g) ts) gs)\<rparr>)
     = concat (map (\<lambda>g. map (f g) ts) gs)"
  by (simp add: empty_frame_def)

lemma filter_tag_concat:
  assumes "\<And>g t. t \<in> set ts \<Longrightarrow> tag (f g t) = Str g"
  shows "filter (\<lambda>r. tag r = Str h) (concat (map (\<lambda>g. map (f g) ts) gs))
           = concat (map (\<lambda>g. map (f g) ts) (filter (\<lambda>g. g = h) gs))"
proof (induction gs)
  case Nil
  then show ?case by simp
next
  case (Cons g gs)
  have "filter (\<lambda>r. tag r = Str h) (map (f g) ts) = (if g = h then map (f g) ts else [])"
    using assms by (auto simp: filter_map comp_def filter_id_conv filter_empty_conv)
  then show ?case using Cons by simp
qed

lemma well_formed_remove_group:
  "well_formed df value_cols \<Longrightarrow> well_formed (remove_group df g) value_cols"
  by (simp add: well_formed_def remove_group_def)

lemma target_rows_remove_group:
  "target_rows (remove_group df g) target_players
     = filter (\<lambda>r. cell_of r COL_CATEGORIA \<noteq> Str g) (target_rows df target_players)"
  by (simp add: target_rows_def remove_group_def conj_commute)

lemma reference_rows_remove_group:
  "reference_rows (remove_group df g) h = (if h = g then [] else reference_rows df h)"
  by (auto simp: reference_rows_def remove_group_def filter_empty_conv intro!: filter_cong)

lemma out_row_remove_group:
  "h \<noteq> g \<Longrightarrow> out_row (remove_group df g) value_cols h r = out_row df value_cols h r"
  by (simp add: out_row_def reference_values_def reference_rows_remove_group)

lemma present_remove_group:
  "present (remove_group df g) reference_categories
     = filter (\<lambda>h. h \<noteq> g) (present df reference_categories)"
  by (induction reference_categories) (auto simp: present_def reference_rows_remove_group)

text \<open>
  Claim C6 as amended. Removing the records of a group \<open>R2\<close> from the input leaves the
  statistics of any other group \<open>R1\<close> as they are, and the rows of the result tagged
  \<open>R1\<close> are then those of the original result without the rows of targets that belong
  to \<open>R2\<close> themselves (line 71 takes the target rows from the same frame, so these
  leave with the records of \<open>R2\<close>); the rows of all other targets are unchanged, in
  the same order.
\<close>

theorem group_independence:
  assumes "well_formed df value_cols" and "R1 \<noteq> R2"
  shows "\<exists>res res'.
           calculate_dual_zscore df target_players reference_categories value_cols = Inr res
         \<and> calculate_dual_zscore (remove_group df R2) target_players reference_categories
              value_cols = Inr res'
         \<and> filter (\<lambda>r. cell_of r COL_REFERENCIA = Str R1) (rows res')
             = filter (\<lambda>r. cell_of r COL_CATEGORIA \<noteq> Str R2)
                 (filter (\<lambda>r. cell_of r COL_REFERENCIA = Str R1) (rows res))"
proof -
  let ?df' = "remove_group df R2"
  let ?ts = "target_rows df target_players"
  let ?gs = "present df reference_categories"
  let ?Q = "\<lambda>r. cell_of r COL_CATEGORIA \<noteq> Str R2"
  let ?ts' = "filter ?Q ?ts"
  let ?hs = "filter (\<lambda>g. g = R1) ?gs"
  have wf': "well_formed ?df' value_cols" by (rule well_formed_remove_group[OF assms(1)])
  have cat: "COL_CATEGORIA \<in> set (columns df)" using assms(1) by (simp add: well_formed_def)
  have tag: "cell_of (out_row df value_cols g t) COL_REFERENCIA = Str g" if "t \<in> set ?ts" for g t
    by (rule out_row_tag[OF assms(1) target_rows_keys[OF assms(1) that]])
  have tag': "cell_of (out_row ?df' value_cols g t) COL_REFERENCIA = Str g"
    if "t \<in> set (target_rows ?df' target_players)" for g t
    by (rule out_row_tag[OF wf' target_rows_keys[OF wf' that]])
  have hs: "filter (\<lambda>g. g = R1) (filter (\<lambda>h. h \<noteq> R2) ?gs) = ?hs"
    using assms(2) by (auto intro!: filter_cong)
  have left: "filter (\<lambda>r. cell_of r COL_REFERENCIA = Str R1)
                (concat (map (\<lambda>g. map (out_row ?df' value_cols g)
                                      (target_rows ?df' target_players))
                             (present ?df' reference_categories)))
              = concat (map (\<lambda>g. map (out_row df value_cols g) ?ts') ?hs)"
  proof -
    have "filter (\<lambda>r. cell_of r COL_REFERENCIA = Str R1)
                (concat (map (\<lambda>g. map (out_row ?df' value_cols g)
                                      (target_rows ?df' target_players))
                             (present ?df' reference_categories)))
          = concat (map (\<lambda>g. map (out_row ?df' value_cols g) (target_rows ?df' target_players))
                        (filter (\<lambda>g. g = R1) (present ?df' reference_categories)))"
      using tag' by (rule filter_tag_concat)
    also have "\<dots> = concat (map (\<lambda>g. map (out_row ?df' value_cols g) ?ts') ?hs)"
      by (simp only: present_remove_group hs target_rows_remove_group)
    also have "\<dots> = concat (map (\<lambda>g. map (out_row df value_cols g) ?ts') ?hs)"
    proof -
      have fn: "out_row ?df' value_cols g = out_row df value_cols g" if "g \<in> set ?hs" for g
        using that assms(2) by (intro ext out_row_remove_group) simp
      have "map (\<lambda>g. map (out_row ?df' value_cols g) ?ts') ?hs
              = map (\<lambda>g. map (out_row df value_cols g) ?ts') ?hs"
        by (rule map_cong[OF refl]) (simp only: fn)
      then show ?thesis by (simp only:)
    qed
    finally show ?thesis .
  qed
  have own: "?Q (out_row df value_cols g t) = ?Q t" if "t \<in> set ?ts" for g t
  proof -
    have "t \<in> set (rows df)" using that by (simp add: target_rows_def)
    then show ?thesis using out_row_is_str[OF assms(1) _ cat] by simp
  qed
  have right: "filter ?Q (filter (\<lambda>r. cell_of r COL_REFERENCIA = Str R1)
                 (concat (map (\<lambda>g. map (out_row df value_cols g) ?ts) ?gs)))
               = concat (map (\<lambda>g. map (out_row df value_cols g) ?ts') ?hs)"
  proof -
    have "filter (\<lambda>r. cell_of r COL_REFERENCIA = Str R1)
                 (concat (map (\<lambda>g. map (out_row df value_cols g) ?ts) ?gs))
          = concat (map (\<lambda>g. map (out_row df value_cols g) ?ts) ?hs)"
      using tag by (rule filter_tag_concat)
    moreover have "filter ?Q (map (out_row df value_cols g) ?ts)
                     = map (out_row df value_cols g) ?ts'" for g
    proof -
      have "filter (\<lambda>t. ?Q (out_row df value_cols g t)) ?ts = filter ?Q ?ts"
        using own by (intro filter_cong refl) simp
      then show ?thesis by (simp add: filter_map comp_def)
    qed
    ultimately show ?thesis by (simp add: filter_concat comp_def)
  qed
  let ?res = "if ?gs = [] then empty_frame
              else \<lparr>columns = out_columns df value_cols,
                    rows = concat (map (\<lambda>g. map (out_row df value_cols g) ?ts) ?gs)\<rparr>"
  let ?res' = "if present ?df' reference_categories = [] then empty_frame
               else \<lparr>columns = out_columns ?df' value_cols,
                     rows = concat (map (\<lambda>g. map (out_row ?df' value_cols g)
                                                (target_rows ?df' target_players))
                                       (present ?df' reference_categories))\<rparr>"
  have "filter (\<lambda>r. cell_of r COL_REFERENCIA = Str R1) (rows ?res')
          = filter ?Q (filter (\<lambda>r. cell_of r COL_REFERENCIA = Str R1) (rows ?res))"
    by (simp only: rows_closed left right)
  with calculate_closed[OF assms(1), of target_players reference_categories]
       calculate_closed[OF wf', of target_players reference_categories]
  show ?thesis by blast
qed

lemmas calc_defs = calculate_dual_zscore_def select_targets_def select_reference_def
  agg_stats_def df_empty_def col_values_def series_mean_def series_std_def assign_def
  pd_concat_def reindex_def drop_columns_def

text \<open>
  Claim C6 says that removing the records of \<open>R2\<close> changes no row tagged \<open>R1\<close>.
  A target that belongs to \<open>R2\<close> is a record of \<open>R2\<close>: its row tagged \<open>R1\<close> is gone
  once these records are removed.
\<close>

theorem group_independence_counterexample:
  "calculate_dual_zscore ex_groups [''X''] [''R1''] [''M''] =
     Inr \<lparr>columns = [COL_JUGADOR, COL_CATEGORIA, new_col_name ''M'', COL_REFERENCIA],
          rows = [[(COL_JUGADOR, Str ''X''), (COL_CATEGORIA, Str ''R2''),
                   (new_col_name ''M'', Num (1 / 2)), (COL_REFERENCIA, Str ''R1'')]]\<rparr>
   \<and> calculate_dual_zscore (remove_group ex_groups ''R2'') [''X''] [''R1''] [''M''] =
     Inr \<lparr>columns = [COL_JUGADOR, COL_CATEGORIA, new_col_name ''M'', COL_REFERENCIA],
          rows = []\<rparr>"
  by (simp add: calc_defs remove_group_def ex_groups_def example_defs)

theorem group_independence_witness:
  "well_formed ex_groups [''M''] \<and> ''R1'' \<noteq> ''R2'' \<and>
   (\<exists>res res'.
       calculate_dual_zscore ex_groups [''X'', ''A''] [''R1'', ''R2''] [''M''] = Inr res
     \<and> calculate_dual_zscore (remove_group ex_groups ''R2'') [''X'', ''A''] [''R1'', ''R2'']
          [''M''] = Inr res'
     \<and> filter (\<lambda>r. cell_of r COL_REFERENCIA = Str ''R1'') (rows res')
         = filter (\<lambda>r. cell_of r COL_CATEGORIA \<noteq> Str ''R2'')
             (filter (\<lambda>r. cell_of r COL_REFERENCIA = Str ''R1'') (rows res)))"
proof -
  have h1: "well_formed ex_groups [''M'']"
    by (simp add: ex_groups_def well_formed_def example_defs)
  have h2: "''R1'' \<noteq> ''R2''" by simp
  from group_independence[OF h1 h2, of "[''X'', ''A'']" "[''R1'', ''R2'']"] h1 h2
  show ?thesis by blast
qed

section \<open>Order and number of the output rows\<close>

lemma out_row_input_part:
  assumes "well_formed df value_cols" and "map fst r = columns df"
  shows "filter (\<lambda>p. fst p \<in> set (columns df)) (out_row df value_cols g r)
           = filter (\<lambda>p. fst p \<notin> set value_cols) r"
proof -
  have fresh: "\<forall>c \<in> set value_cols. new_col_name c \<notin> set (columns df)"
    and ref: "COL_REFERENCIA \<notin> set (columns df)"
    using assms(1) by (auto simp: well_formed_def)
  have "\<forall>p \<in> set r. fst p \<in> set (columns df)"
    using assms(2) by (metis image_eqI list.set_map)
  then have a: "filter (\<lambda>p. fst p \<in> set (columns df)) (filter (\<lambda>p. fst p \<notin> set value_cols) r)
                  = filter (\<lambda>p. fst p \<notin> set value_cols) r"
    by (auto intro!: filter_cong)
  have b: "filter (\<lambda>p. fst p \<in> set (columns df)) (map (\<lambda>c. (new_col_name c, f c)) value_cols) = []"
    for f :: "string \<Rightarrow> cell"
    using fresh by (simp add: filter_empty_conv)
  show ?thesis
    unfolding out_row_def filter_append a b using ref by simp
qed

text \<open>
  Claim C8. The rows of the result come in blocks, one block per requested reference group
  that has records, in the order the groups were requested: the reference labels read down
  the result are the label of the first such group repeated once per target row, then the
  label of the second, and so on. Within each block the rows are the target rows in their
  order in the input: restricted to the columns of the input, each block is the list of the
  target rows without their metric columns.
\<close>

theorem result_order:
  assumes "well_formed df value_cols"
  shows "\<exists>res. calculate_dual_zscore df target_players reference_categories value_cols = Inr res
           \<and> map (\<lambda>r. cell_of r COL_REFERENCIA) (rows res)
               = concat (map (\<lambda>g. replicate (length (target_rows df target_players)) (Str g))
                             (present df reference_categories))
           \<and> map (filter (\<lambda>p. fst p \<in> set (columns df))) (rows res)
               = concat (map (\<lambda>g. map (filter (\<lambda>p. fst p \<notin> set value_cols))
                                       (target_rows df target_players))
                             (present df reference_categories))"
proof -
  let ?ts = "target_rows df target_players"
  let ?gs = "present df reference_categories"
  let ?out = "concat (map (\<lambda>g. map (out_row df value_cols g) ?ts) ?gs)"
  have tags: "map (\<lambda>t. cell_of (out_row df value_cols g t) COL_REFERENCIA) ?ts
                = replicate (length ?ts) (Str g)" for g
  proof -
    have "map (\<lambda>t. cell_of (out_row df value_cols g t) COL_REFERENCIA) ?ts
            = map (\<lambda>t. Str g) ?ts"
      by (rule map_cong[OF refl]) (rule out_row_tag[OF assms target_rows_keys[OF assms]])
    then show ?thesis by (simp only: map_replicate_const)
  qed
  have parts: "map (\<lambda>t. filter (\<lambda>p. fst p \<in> set (columns df)) (out_row df value_cols g t)) ?ts
                 = map (filter (\<lambda>p. fst p \<notin> set value_cols)) ?ts" for g
    by (rule map_cong[OF refl]) (rule out_row_input_part[OF assms target_rows_keys[OF assms]])
  have 1: "map (\<lambda>r. cell_of r COL_REFERENCIA) ?out
             = concat (map (\<lambda>g. replicate (length ?ts) (Str g)) ?gs)"
    by (simp only: map_concat map_map comp_def tags)
  have 2: "map (filter (\<lambda>p. fst p \<in> set (columns df))) ?out
             = concat (map (\<lambda>g. map (filter (\<lambda>p. fst p \<notin> set value_cols)) ?ts) ?gs)"
    by (simp only: map_concat map_map comp_def parts)
  let ?res = "if ?gs = [] then empty_frame
              else \<lparr>columns = out_columns df value_cols, rows = ?out\<rparr>"
  have "rows ?res = ?out" by (rule rows_closed)
  with 1 2 calculate_closed[OF assms, of target_players reference_categories]
  show ?thesis by (intro exI[of _ ?res]) (simp only: simp_thms)
qed

text \<open>
  The targets are requested as \<open>Y\<close>, \<open>X\<close> but stand in the input as \<open>X\<close>,
  \<open>Y\<close>; the groups are requested as \<open>R2\<close>, \<open>NONE\<close> (no record), \<open>R1\<close>.
\<close>

theorem result_order_witness:
  "well_formed ex_groups [''M''] \<and>
   (\<exists>res. calculate_dual_zscore ex_groups [''Y'', ''X''] [''R2'', ''NONE'', ''R1''] [''M'']
            = Inr res
      \<and> map (\<lambda>r. cell_of r COL_REFERENCIA) (rows res)
          = [Str ''R2'', Str ''R2'', Str ''R1'', Str ''R1'']
      \<and> map (filter (\<lambda>p. fst p \<in> set (columns ex_groups))) (rows res)
          = [[(COL_JUGADOR, Str ''X''), (COL_CATEGORIA, Str ''R2'')],
             [(COL_JUGADOR, Str ''Y''), (COL_CATEGORIA, Str ''R2'')],
             [(COL_JUGADOR, Str ''X''), (COL_CATEGORIA, Str ''R2'')],
             [(COL_JUGADOR, Str ''Y''), (COL_CATEGORIA, Str ''R2'')]])"
proof -
  have h1: "well_formed ex_groups [''M'']"
    by (simp add: ex_groups_def well_formed_def example_defs)
  have gs: "present ex_groups [''R2'', ''NONE'', ''R1''] = [''R2'', ''R1'']"
    by (simp add: ex_groups_def present_def reference_rows_def example_defs)
  have ts: "target_rows ex_groups [''Y'', ''X'']
              = [mk_row (''X'', ''R2'', 25), mk_row (''Y'', ''R2'', 35)]"
    by (simp add: ex_groups_def target_rows_def example_defs)
  have parts:
    "filter (\<lambda>p. fst p \<noteq> ''M'') (mk_row (''X'', ''R2'', 25))
       = [(COL_JUGADOR, Str ''X''), (COL_CATEGORIA, Str ''R2'')]"
    "filter (\<lambda>p. fst p \<noteq> ''M'') (mk_row (''Y'', ''R2'', 35))
       = [(COL_JUGADOR, Str ''Y''), (COL_CATEGORIA, Str ''R2'')]"
    by (simp_all add: example_defs)
  from result_order[OF h1, of "[''Y'', ''X'']" "[''R2'', ''NONE'', ''R1'']"] h1
  show ?thesis unfolding gs ts by (simp add: parts)
qed








section \<open>Targets inside their reference group\<close>




section \<open>Identical reference values in double precision\<close>

lemma rne_near: "\<bar>x - of_int m\<bar> < 1 / 2 \<Longrightarrow> rne x = m"
proof -
  assume a: "\<bar>x - of_int m\<bar> < 1 / 2"
  show ?thesis
  proof (cases "of_int m \<le> x")
    case True
    then have "\<lfloor>x\<rfloor> = m" using a by (intro floor_unique) auto
    then show ?thesis using a True by (simp add: rne_def Let_def)
  next
    case False
    then have "\<lfloor>x\<rfloor> = m - 1" using a by (intro floor_unique) auto
    then show ?thesis using a False by (auto simp: rne_def Let_def)
  qed
qed

lemma rne_tie_up: "x = of_int m - 1 / 2 \<Longrightarrow> even m \<Longrightarrow> rne x = m"
proof -
  assume x: "x = of_int m - 1 / 2" and e: "even m"
  have "\<lfloor>x\<rfloor> = m - 1" unfolding x by (intro floor_unique) auto
  then show ?thesis using x e by (simp add: rne_def Let_def)
qed

lemma floor_log2:
  assumes "2 powi k \<le> x" and "x < 2 powi (k + 1)"
  shows "\<lfloor>log 2 x\<rfloor> = k"
proof -
  have pos: "0 < x" using assms(1) by (smt (verit) zero_less_power_int)
  have a: "2 powr (real_of_int k) = 2 powi k"
    using powr_real_of_int'[of 2 k] by simp
  have b: "2 powr (real_of_int k + 1) = 2 powi (k + 1)"
    using powr_real_of_int'[of 2 "k + 1"] by simp
  show ?thesis using pos assms by (simp add: floor_log_eq_powr_iff a b)
qed

lemma fl_val:
  assumes "2 powi k \<le> \<bar>x\<bar>" and "\<bar>x\<bar> < 2 powi (k + 1)"
    and "rne (x / 2 powi (k - 52)) = m"
  shows "fl x = of_int m * 2 powi (k - 52)"
proof -
  have "x \<noteq> 0" using assms(1) by (smt (verit) zero_less_power_int)
  then show ?thesis using floor_log2[OF assms(1,2)] assms(3) by (simp add: fl_def)
qed

lemma fl_eq:
  assumes "2 powi k \<le> \<bar>x\<bar>" and "\<bar>x\<bar> < 2 powi (k + 1)"
    and "\<bar>x / 2 powi (k - 52) - of_int m\<bar> < 1 / 2"
    and "y = of_int m * 2 powi (k - 52)"
  shows "fl x = y"
  unfolding assms(4) by (rule fl_val[OF assms(1,2) rne_near[OF assms(3)]])

lemma fl_eq_tie:
  assumes "2 powi k \<le> \<bar>x\<bar>" and "\<bar>x\<bar> < 2 powi (k + 1)"
    and "x / 2 powi (k - 52) = of_int m - 1 / 2" and "even m"
    and "y = of_int m * 2 powi (k - 52)"
  shows "fl x = y"
  unfolding assms(5) by (rule fl_val[OF assms(1,2) rne_tie_up[OF assms(3,4)]])

lemma fl_sqrt_eq:
  assumes "(2 powi k)\<^sup>2 \<le> v" and "v < (2 powi (k + 1))\<^sup>2"
    and "((of_int m - 1 / 2) * 2 powi (k - 52))\<^sup>2 < v"
    and "v < ((of_int m + 1 / 2) * 2 powi (k - 52))\<^sup>2"
    and "1 \<le> m"
    and "y = of_int m * 2 powi (k - 52)"
  shows "fl (sqrt v) = y"
proof (rule fl_eq[OF _ _ _ assms(6)])
  have e: "0 < (2 :: real) powi (k - 52)" by simp
  have v: "0 \<le> v" using assms(1) by (smt (verit) zero_le_power2)
  have lo: "2 powi k \<le> sqrt v" using assms(1) by (rule real_le_rsqrt)
  have hi: "sqrt v < 2 powi (k + 1)" using assms(2) by (intro real_less_lsqrt) simp_all
  have "0 \<le> sqrt v" using v by simp
  then show "2 powi k \<le> \<bar>sqrt v\<bar>" "\<bar>sqrt v\<bar> < 2 powi (k + 1)" using lo hi by simp_all
  have a: "(of_int m - 1 / 2) * 2 powi (k - 52) < sqrt v" using assms(3) by (rule real_less_rsqrt)
  have "0 \<le> (real_of_int m + 1 / 2) * 2 powi (k - 52)" using assms(5) by simp
  then have b: "sqrt v < (of_int m + 1 / 2) * 2 powi (k - 52)"
    using assms(4) by (intro real_less_lsqrt) simp_all
  have "of_int m - 1 / 2 < sqrt v / 2 powi (k - 52)" using a e by (simp add: pos_less_divide_eq)
  moreover have "sqrt v / 2 powi (k - 52) < of_int m + 1 / 2" using b e by (simp add: pos_divide_less_eq)
  ultimately show "\<bar>sqrt v / 2 powi (k - 52) - of_int m\<bar> < 1 / 2" by linarith
qed

lemma double_sum3: "double_sum [a, b, c] = fl (fl (fl a + b) + c)"
  by (simp add: double_sum_def)

lemma double_mean3: "double_mean [a, b, c] = Some (fl (double_sum [a, b, c] / 3))"
  by (simp add: double_mean_def)

lemma double_std3:
  "double_std [a, b, c] =
     Some (fl (sqrt (fl (double_sum [fl ((fl (fl (double_sum [a, b, c] / 3) - a))\<^sup>2),
                                     fl ((fl (fl (double_sum [a, b, c] / 3) - b))\<^sup>2),
                                     fl ((fl (fl (double_sum [a, b, c] / 3) - c))\<^sup>2)] / 2))))"
  by (simp add: double_std_def Let_def)

text \<open>
  Claim C2 says that a reference group whose values are all the same gives the score 0, as
  the comment on line 98 does. In double precision the mean of three values 0.1 is not
  0.1 (their sum is rounded up), so the standard deviation comes out as about
  \<open>1.7e-17\<close> and not as 0: the test of line 97 fails, line 101 divides, and the score of
  a target at 65 is about \<open>3.8e18\<close>.
\<close>

theorem identical_values_in_double:
  "double_std [fl (1 / 10), fl (1 / 10), fl (1 / 10)] = Some (2757880273211543 / 2 ^ 107)
   \<and> double_score [fl (1 / 10), fl (1 / 10), fl (1 / 10)] 65 = Num 3818377167603822592"
proof -
  define d :: real where "d = 3602879701896397 / 2 ^ 55"
  define s2 :: real where "s2 = 3602879701896397 / 2 ^ 54"
  define s3 :: real where "s3 = 1351079888211149 / 2 ^ 52"
  define mean :: real where "mean = 7205759403792795 / 2 ^ 56"
  define dev :: real where "dev = 1 / 2 ^ 56"
  define sq :: real where "sq = 1 / 2 ^ 112"
  define q2 :: real where "q2 = 1 / 2 ^ 111"
  define q3 :: real where "q3 = 3 / 2 ^ 112"
  define var :: real where "var = 3 / 2 ^ 113"
  define std :: real where "std = 2757880273211543 / 2 ^ 107"
  define diff :: real where "diff = 2283465748565197 / 2 ^ 45"
  have r0: "fl (1 / 10) = d"
    by (rule fl_eq[where k = "- 4" and m = 7205759403792794])
       (simp_all add: power_int_minus d_def)
  have r1: "fl d = d"
    by (rule fl_eq[where k = "- 4" and m = 7205759403792794])
       (simp_all add: power_int_minus d_def)
  have r2: "fl (d + d) = s2"
    by (rule fl_eq[where k = "- 3" and m = 7205759403792794])
       (simp_all add: power_int_minus d_def s2_def)
  have r3: "fl (s2 + d) = s3"
    by (rule fl_eq_tie[where k = "- 2" and m = 5404319552844596])
       (simp_all add: power_int_minus d_def s2_def s3_def)
  have r4: "fl (s3 / 3) = mean"
    by (rule fl_eq[where k = "- 4" and m = 7205759403792795])
       (simp_all add: power_int_minus s3_def mean_def)
  have r5: "fl (mean - d) = dev"
    by (rule fl_eq[where k = "- 56" and m = 4503599627370496])
       (simp_all add: power_int_minus mean_def d_def dev_def)
  have r6: "fl (dev\<^sup>2) = sq"
    by (rule fl_eq[where k = "- 112" and m = 4503599627370496])
       (simp_all add: power_int_minus dev_def sq_def power2_eq_square)
  have r7: "fl sq = sq"
    by (rule fl_eq[where k = "- 112" and m = 4503599627370496])
       (simp_all add: power_int_minus sq_def)
  have r8: "fl (sq + sq) = q2"
    by (rule fl_eq[where k = "- 111" and m = 4503599627370496])
       (simp_all add: power_int_minus sq_def q2_def)
  have r9: "fl (q2 + sq) = q3"
    by (rule fl_eq[where k = "- 111" and m = 6755399441055744])
       (simp_all add: power_int_minus sq_def q2_def q3_def)
  have r10: "fl (q3 / 2) = var"
    by (rule fl_eq[where k = "- 112" and m = 6755399441055744])
       (simp_all add: power_int_minus q3_def var_def)
  have r11: "fl (sqrt var) = std"
    by (rule fl_sqrt_eq[where k = "- 56" and m = 5515760546423086])
       (simp_all add: power_int_minus var_def std_def power2_eq_square)
  have r12: "fl (65 - mean) = diff"
    by (rule fl_eq[where k = 6 and m = 4566931497130394])
       (simp_all add: power_int_minus mean_def diff_def)
  have r13: "fl (diff / std) = 3818377167603822592"
    by (rule fl_eq[where k = 61 and m = 7457767905476216])
       (simp_all add: power_int_minus diff_def std_def)
  have sum: "double_sum [d, d, d] = s3"
    by (simp only: double_sum3 r1 r2 r3)
  have qsum: "double_sum [sq, sq, sq] = q3"
    by (simp only: double_sum3 r7 r8 r9)
  have sd: "double_std [d, d, d] = Some std"
    by (simp only: double_std3 sum r4 r5 r6 qsum r10 r11)
  have mn: "double_mean [d, d, d] = Some mean"
    by (simp only: double_mean3 sum r4)
  have nz: "std \<noteq> 0" by (simp add: std_def)
  have sc: "double_score [d, d, d] 65 = Num 3818377167603822592"
    using nz by (simp add: double_score_def sd mn r12 r13)
  show ?thesis
    unfolding r0 using sd sc by (simp add: std_def)
qed

text \<open>
  Claim C7 says that multiplying every value of a metric by a positive constant changes no
  score. With three reference values 30.1 and a target at 35.1 the standard deviation is
  about \<open>4.4e-15\<close> and the score about \<open>1.1e15\<close>; multiplied by 10 the values are 301
  and 351, the standard deviation is 0, line 97 takes the other branch and the score is 0.
\<close>

theorem scaling_in_double:
  "double_score [fl (301 / 10), fl (301 / 10), fl (301 / 10)] (fl (351 / 10))
     = Num 1149116780504809
   \<and> double_score [fl (10 * fl (301 / 10)), fl (10 * fl (301 / 10)), fl (10 * fl (301 / 10))]
        (fl (10 * fl (351 / 10))) = Num 0"
proof -
  define d :: real where "d = 4236198399495373 / 2 ^ 47"
  define t :: real where "t = 4939885841272013 / 2 ^ 47"
  define s2 :: real where "s2 = 4236198399495373 / 2 ^ 46"
  define s3 :: real where "s3 = 1588574399810765 / 2 ^ 44"
  define mean :: real where "mean = 8472396798990747 / 2 ^ 48"
  define dev :: real where "dev = 1 / 2 ^ 48"
  define sq :: real where "sq = 1 / 2 ^ 96"
  define q2 :: real where "q2 = 1 / 2 ^ 95"
  define q3 :: real where "q3 = 3 / 2 ^ 96"
  define var :: real where "var = 3 / 2 ^ 97"
  define std :: real where "std = 2757880273211543 / 2 ^ 99"
  define diff :: real where "diff = 1407374883553279 / 2 ^ 48"
  define c :: real where "c = 301"
  define u :: real where "u = 351"
  define c2 :: real where "c2 = 602"
  define c3 :: real where "c3 = 903"
  have r0: "fl (301 / 10) = d"
    by (rule fl_eq[where k = 4 and m = 8472396798990746])
       (simp_all add: power_int_minus d_def)
  have rt: "fl (351 / 10) = t"
    by (rule fl_eq[where k = 5 and m = 4939885841272013])
       (simp_all add: power_int_minus t_def)
  have r1: "fl d = d"
    by (rule fl_eq[where k = 4 and m = 8472396798990746])
       (simp_all add: power_int_minus d_def)
  have r2: "fl (d + d) = s2"
    by (rule fl_eq[where k = 5 and m = 8472396798990746])
       (simp_all add: power_int_minus d_def s2_def)
  have r3: "fl (s2 + d) = s3"
    by (rule fl_eq_tie[where k = 6 and m = 6354297599243060])
       (simp_all add: power_int_minus d_def s2_def s3_def)
  have r4: "fl (s3 / 3) = mean"
    by (rule fl_eq[where k = 4 and m = 8472396798990747])
       (simp_all add: power_int_minus s3_def mean_def)
  have r5: "fl (mean - d) = dev"
    by (rule fl_eq[where k = "- 48" and m = 4503599627370496])
       (simp_all add: power_int_minus mean_def d_def dev_def)
  have r6: "fl (dev\<^sup>2) = sq"
    by (rule fl_eq[where k = "- 96" and m = 4503599627370496])
       (simp_all add: power_int_minus dev_def sq_def power2_eq_square)
  have r7: "fl sq = sq"
    by (rule fl_eq[where k = "- 96" and m = 4503599627370496])
       (simp_all add: power_int_minus sq_def)
  have r8: "fl (sq + sq) = q2"
    by (rule fl_eq[where k = "- 95" and m = 4503599627370496])
       (simp_all add: power_int_minus sq_def q2_def)
  have r9: "fl (q2 + sq) = q3"
    by (rule fl_eq[where k = "- 95" and m = 6755399441055744])
       (simp_all add: power_int_minus sq_def q2_def q3_def)
  have r10: "fl (q3 / 2) = var"
    by (rule fl_eq[where k = "- 96" and m = 6755399441055744])
       (simp_all add: power_int_minus q3_def var_def)
  have r11: "fl (sqrt var) = std"
    by (rule fl_sqrt_eq[where k = "- 48" and m = 5515760546423086])
       (simp_all add: power_int_minus var_def std_def power2_eq_square)
  have r12: "fl (t - mean) = diff"
    by (rule fl_eq[where k = 2 and m = 5629499534213116])
       (simp_all add: power_int_minus t_def mean_def diff_def)
  have r13: "fl (diff / std) = 1149116780504809"
    by (rule fl_eq[where k = 50 and m = 4596467122019236])
       (simp_all add: power_int_minus diff_def std_def)
  have sum: "double_sum [d, d, d] = s3"
    by (simp only: double_sum3 r1 r2 r3)
  have qsum: "double_sum [sq, sq, sq] = q3"
    by (simp only: double_sum3 r7 r8 r9)
  have sd: "double_std [d, d, d] = Some std"
    by (simp only: double_std3 sum r4 r5 r6 qsum r10 r11)
  have mn: "double_mean [d, d, d] = Some mean"
    by (simp only: double_mean3 sum r4)
  have nz: "std \<noteq> 0" by (simp add: std_def)
  have first: "double_score [d, d, d] t = Num 1149116780504809"
    using nz by (simp add: double_score_def sd mn r12 r13)
  have k0: "fl (10 * d) = c"
    by (rule fl_eq[where k = 8 and m = 5295247999369216])
       (simp_all add: power_int_minus d_def c_def)
  have kt: "fl (10 * t) = u"
    by (rule fl_eq[where k = 8 and m = 6174857301590016])
       (simp_all add: power_int_minus t_def u_def)
  have k1: "fl c = c"
    by (rule fl_eq[where k = 8 and m = 5295247999369216])
       (simp_all add: power_int_minus c_def)
  have k2: "fl (c + c) = c2"
    by (rule fl_eq[where k = 9 and m = 5295247999369216])
       (simp_all add: power_int_minus c_def c2_def)
  have k3: "fl (c2 + c) = c3"
    by (rule fl_eq[where k = 9 and m = 7942871999053824])
       (simp_all add: power_int_minus c_def c2_def c3_def)
  have k4: "fl (c3 / 3) = c"
    by (rule fl_eq[where k = 8 and m = 5295247999369216])
       (simp_all add: power_int_minus c_def c3_def)
  have z: "fl 0 = 0" by (simp add: fl_def)
  have csum: "double_sum [c, c, c] = c3"
    by (simp only: double_sum3 k1 k2 k3)
  have zsum: "double_sum [0, 0, 0] = 0"
    by (simp add: double_sum3 z)
  have "double_std [c, c, c] = Some (fl (sqrt (fl (double_sum [fl ((fl (c - c))\<^sup>2),
          fl ((fl (c - c))\<^sup>2), fl ((fl (c - c))\<^sup>2)] / 2))))"
    by (simp only: double_std3 csum k4)
  then have csd: "double_std [c, c, c] = Some 0"
    by (simp add: z zsum)
  have second: "double_score [c, c, c] u = Num 0"
    by (simp add: double_score_def csd)
  show ?thesis
    unfolding r0 rt k0 kt using first second by simp
qed

end
